theory Spec2Isabelle
  imports Main "HOL-Library.Word"
begin

unbundle bit_operations_syntax

section \<open>The CHIP-8 machine of \<open>main.cpp\<close>\<close>

text \<open>
  A shallow embedding of \<open>struct Chip_8\<close> (file \<open>CHIP-8 Emulator/main.cpp\<close>):
  the fields of the struct are the fields of a record, \<open>ExecuteInst\<close> and \<open>RunCycle\<close>
  are functions from a machine state to either a fault or the next state.

  \<^item> \<open>uint8_t\<close> and \<open>int8_t\<close> are \<open>8 word\<close> (read with \<open>uint\<close>/\<open>unat\<close> and \<open>sint\<close>
    respectively), \<open>uint16_t\<close> and \<open>int16_t\<close> are \<open>16 word\<close>; \<open>+\<close> and \<open>-\<close> wrap.
    The entries of \<open>callstack\<close> (\<open>int16_t\<close>) only store and return the bits of \<open>PC\<close>;
    the entries of \<open>pixels\<close> (\<open>int8_t\<close>) are only compared with 1 and XORed with 0 or 1.
  \<^item> A \<open>std::vector\<close> is a list. The constructor gives every vector its size once and
    nothing resizes it later (predicate \<open>sized\<close>).
  \<^item> \<open>exit(1)\<close> is a fault named after the message printed before it.
  \<^item> \<open>operator[]\<close> of \<open>std::vector\<close> does not check its index. An index that the program
    can drive past the end of a vector (\<open>mem[PC + 1]\<close>, \<open>mem[VI + i]\<close>, \<open>keys[V[x]]\<close>,
    \<open>callstack[--SP]\<close>) is modelled as the fault \<open>OutOfRange\<close>, which records the vector
    and the index: the program performs such an access with no error of its own.
    Indices that are constant, masked, reduced or checked first (\<open>0\<close>, \<open>15\<close>, \<open>x\<close>, \<open>y\<close>,
    \<open>i \<le> x\<close>, the pixel index, the key index of \<open>Ex9E\<close> and of \<open>Fx0A\<close>) are inside a
    vector of the constructor's size and are written with \<open>!\<close>.
  \<^item> Output to \<open>std::cout\<close>/\<open>std::cerr\<close> and the SDL calls are left out.
  \<^item> The number drawn by \<open>randomSeed(randGen)\<close> is an argument of the step.
\<close>

type_synonym u8 = "8 word"
type_synonym u16 = "16 word"

datatype keyState = UP | DOWN

record Chip_8 =
  mem :: "u8 list"
  V :: "u8 list"
  keys :: "keyState list"
  VI :: u16
  soundTimer :: u8
  delayTimer :: u8
  PC :: u16
  SP :: u8
  callstack :: "u16 list"
  pixels :: "u8 list"

datatype vec = v_mem | v_keys | v_callstack

datatype fault =
    IncorrectPC
  | IncorrectJump
  | MaxRecursionDepth
  | InvalidCode
  | InvalidOpcode
  | InvalidOpcodeF
  | InvalidOpcodeStart
  | OutOfRange vec nat

definition W :: nat where "W = 64"
definition H :: nat where "H = 32"
definition FONT_ADDRESS :: nat where "FONT_ADDRESS = 2"
definition CLS :: u16 where "CLS = 0xE0"
definition RET :: u16 where "RET = 0xEE"

definition sized :: "Chip_8 \<Rightarrow> bool" where
  "sized s \<longleftrightarrow>
     length (mem s) = 4096 \<and> length (V s) = 16 \<and> length (keys s) = 16 \<and>
     length (callstack s) = 16 \<and> length (pixels s) = W * H"

subsection \<open>The constructor\<close>

definition font :: "u8 list" where
  "font =
    [0xF0, 0x90, 0x90, 0x90, 0xF0,
     0x20, 0x60, 0x20, 0x20, 0x70,
     0xF0, 0x10, 0xF0, 0x80, 0xF0,
     0xF0, 0x10, 0xF0, 0x10, 0xF0,
     0x90, 0x90, 0xF0, 0x10, 0x10,
     0xF0, 0x80, 0xF0, 0x10, 0xF0,
     0xF0, 0x80, 0xF0, 0x90, 0xF0,
     0xF0, 0x10, 0x20, 0x40, 0x40,
     0xF0, 0x90, 0xF0, 0x90, 0xF0,
     0xF0, 0x90, 0xF0, 0x10, 0xF0,
     0xF0, 0x90, 0xF0, 0x90, 0x90,
     0xE0, 0x90, 0xE0, 0x90, 0xE0,
     0xF0, 0x80, 0x80, 0x80, 0xF0,
     0xE0, 0x90, 0x90, 0x90, 0xE0,
     0xF0, 0x80, 0xF0, 0x80, 0xF0,
     0xF0, 0x80, 0xF0, 0x80, 0x80]"

definition Chip_8_new :: Chip_8 where
  "Chip_8_new =
     \<lparr> mem = [0x12, 0x00] @ font @ replicate (4096 - 2 - 80) 0,
       V = replicate 16 0,
       keys = replicate 16 UP,
       VI = 0, soundTimer = 0, delayTimer = 0, PC = 0, SP = 0,
       callstack = replicate 16 0,
       pixels = replicate (W * H) 0 \<rparr>"

subsection \<open>Fetch and decode\<close>

definition fetch0 :: "Chip_8 \<Rightarrow> u8" where
  "fetch0 s = mem s ! unat (PC s)"

definition fetch1 :: "Chip_8 \<Rightarrow> u8" where
  "fetch1 s = mem s ! (unat (PC s) + 1)"

definition opcode :: "Chip_8 \<Rightarrow> u16" where
  "opcode s = push_bit 8 (ucast (fetch0 s)) OR ucast (fetch1 s)"

definition op_nnn :: "Chip_8 \<Rightarrow> u16" where
  "op_nnn s = opcode s AND 0xFFF"

definition op_n :: "Chip_8 \<Rightarrow> u8" where
  "op_n s = ucast (opcode s AND 0xF)"

definition op_x :: "Chip_8 \<Rightarrow> u8" where
  "op_x s = fetch0 s AND 0xF"

definition op_y :: "Chip_8 \<Rightarrow> u8" where
  "op_y s = drop_bit 4 (fetch1 s) AND 0xF"

text \<open>\<open>int8_t kk = mem[PC + 1]\<close>: the same eight bits, read as a signed number (\<open>sint\<close>)
  wherever the program compares \<open>kk\<close>.\<close>

definition op_kk :: "Chip_8 \<Rightarrow> u8" where
  "op_kk s = fetch1 s"

definition op_u :: "Chip_8 \<Rightarrow> u8" where
  "op_u s = drop_bit 4 (fetch0 s) AND 0xF"

definition op_v :: "Chip_8 \<Rightarrow> u8" where
  "op_v s = fetch1 s AND 0xF"

subsection \<open>The instructions\<close>

text \<open>Every function below takes the state after \<open>PC += 2\<close>; \<open>x\<close>, \<open>y\<close>, \<open>kk\<close>, \<open>nnn\<close>
  are the fields decoded before it.\<close>

definition skip_if :: "bool \<Rightarrow> Chip_8 \<Rightarrow> Chip_8" where
  "skip_if c s = (if c then s\<lparr>PC := PC s + 2\<rparr> else s)"

definition case_RET :: "Chip_8 \<Rightarrow> fault + Chip_8" where
  "case_RET s =
     (let sp = SP s - 1 in
      if unat sp < length (callstack s)
      then Inr (s\<lparr>SP := sp, PC := callstack s ! unat sp\<rparr>)
      else Inl (OutOfRange v_callstack (unat sp)))"

definition case_1nnn :: "u16 \<Rightarrow> Chip_8 \<Rightarrow> fault + Chip_8" where
  "case_1nnn nnn s =
     (if length (mem s) \<le> unat nnn then Inl IncorrectJump else Inr (s\<lparr>PC := nnn\<rparr>))"

definition case_2nnn :: "u16 \<Rightarrow> Chip_8 \<Rightarrow> fault + Chip_8" where
  "case_2nnn nnn s =
     (if length (callstack s) \<le> unat (SP s) then Inl MaxRecursionDepth
      else Inr (s\<lparr>callstack := (callstack s)[unat (SP s) := PC s], SP := SP s + 1, PC := nnn\<rparr>))"

text \<open>\<open>V[x] == kk\<close> compares a \<open>uint8_t\<close> with an \<open>int8_t\<close>: both are promoted to \<open>int\<close>.\<close>

definition case_3xkk :: "u8 \<Rightarrow> u8 \<Rightarrow> Chip_8 \<Rightarrow> Chip_8" where
  "case_3xkk x kk s = skip_if (uint (V s ! unat x) = sint kk) s"

definition case_4xkk :: "u8 \<Rightarrow> u8 \<Rightarrow> Chip_8 \<Rightarrow> Chip_8" where
  "case_4xkk x kk s = skip_if (uint (V s ! unat x) \<noteq> sint kk) s"

definition case_5xy0 :: "u8 \<Rightarrow> u8 \<Rightarrow> Chip_8 \<Rightarrow> Chip_8" where
  "case_5xy0 x y s = skip_if (V s ! unat x = V s ! unat y) s"

definition case_6xkk :: "u8 \<Rightarrow> u8 \<Rightarrow> Chip_8 \<Rightarrow> Chip_8" where
  "case_6xkk x kk s = s\<lparr>V := (V s)[unat x := kk]\<rparr>"

definition case_7xkk :: "u8 \<Rightarrow> u8 \<Rightarrow> Chip_8 \<Rightarrow> Chip_8" where
  "case_7xkk x kk s = s\<lparr>V := (V s)[unat x := V s ! unat x + kk]\<rparr>"

definition case_8xy0 :: "u8 \<Rightarrow> u8 \<Rightarrow> Chip_8 \<Rightarrow> Chip_8" where
  "case_8xy0 x y s = s\<lparr>V := (V s)[unat x := V s ! unat y]\<rparr>"

definition case_8xy1 :: "u8 \<Rightarrow> u8 \<Rightarrow> Chip_8 \<Rightarrow> Chip_8" where
  "case_8xy1 x y s = s\<lparr>V := (V s)[unat x := V s ! unat x OR V s ! unat y]\<rparr>"

definition case_8xy2 :: "u8 \<Rightarrow> u8 \<Rightarrow> Chip_8 \<Rightarrow> Chip_8" where
  "case_8xy2 x y s = s\<lparr>V := (V s)[unat x := V s ! unat x AND V s ! unat y]\<rparr>"

definition case_8xy3 :: "u8 \<Rightarrow> u8 \<Rightarrow> Chip_8 \<Rightarrow> Chip_8" where
  "case_8xy3 x y s = s\<lparr>V := (V s)[unat x := V s ! unat x XOR V s ! unat y]\<rparr>"

text \<open>\<open>uint16_t result = V[x] + V[y]; result > 255 ? V[15] = 1 : V[15] = 0;
  V[x] = result & 0xFF;\<close>\<close>

definition case_8xy4 :: "u8 \<Rightarrow> u8 \<Rightarrow> Chip_8 \<Rightarrow> Chip_8" where
  "case_8xy4 x y s =
     (let result = (ucast (V s ! unat x) + ucast (V s ! unat y) :: u16);
          V1 = (V s)[15 := (if 255 < result then 1 else 0)];
          V2 = V1[unat x := ucast (result AND 0xFF)]
      in s\<lparr>V := V2\<rparr>)"

text \<open>\<open>uint16_t result = V[x] - V[y]; V[x] > V[y] ? V[15] = 1 : V[15] = 0; V[x] -= V[y];\<close>
  The variable \<open>result\<close> is not used: the subtraction reads \<open>V[x]\<close> and \<open>V[y]\<close> again,
  after \<open>V[15]\<close> has been written.\<close>

definition case_8xy5 :: "u8 \<Rightarrow> u8 \<Rightarrow> Chip_8 \<Rightarrow> Chip_8" where
  "case_8xy5 x y s =
     (let V1 = (V s)[15 := (if V s ! unat y < V s ! unat x then 1 else 0)];
          V2 = V1[unat x := V1 ! unat x - V1 ! unat y]
      in s\<lparr>V := V2\<rparr>)"

definition case_8xy6 :: "u8 \<Rightarrow> Chip_8 \<Rightarrow> Chip_8" where
  "case_8xy6 x s =
     (let V1 = (V s)[15 := V s ! unat x AND 1];
          V2 = V1[unat x := drop_bit 1 (V1 ! unat x)]
      in s\<lparr>V := V2\<rparr>)"

definition case_8xy7 :: "u8 \<Rightarrow> u8 \<Rightarrow> Chip_8 \<Rightarrow> Chip_8" where
  "case_8xy7 x y s =
     (let V1 = (V s)[15 := (if V s ! unat x < V s ! unat y then 1 else 0)];
          V2 = V1[unat x := V1 ! unat y - V1 ! unat x]
      in s\<lparr>V := V2\<rparr>)"

definition case_8xyE :: "u8 \<Rightarrow> Chip_8 \<Rightarrow> Chip_8" where
  "case_8xyE x s =
     (let V1 = (V s)[15 := drop_bit 7 (V s ! unat x AND 0x80)];
          V2 = V1[unat x := push_bit 1 (V1 ! unat x)]
      in s\<lparr>V := V2\<rparr>)"

definition case_8 :: "u8 \<Rightarrow> u8 \<Rightarrow> u8 \<Rightarrow> Chip_8 \<Rightarrow> fault + Chip_8" where
  "case_8 v x y s =
     (if v = 0 then Inr (case_8xy0 x y s)
      else if v = 1 then Inr (case_8xy1 x y s)
      else if v = 2 then Inr (case_8xy2 x y s)
      else if v = 3 then Inr (case_8xy3 x y s)
      else if v = 4 then Inr (case_8xy4 x y s)
      else if v = 5 then Inr (case_8xy5 x y s)
      else if v = 6 then Inr (case_8xy6 x s)
      else if v = 7 then Inr (case_8xy7 x y s)
      else if v = 0xE then Inr (case_8xyE x s)
      else Inl InvalidOpcode)"

definition case_9xy0 :: "u8 \<Rightarrow> u8 \<Rightarrow> Chip_8 \<Rightarrow> Chip_8" where
  "case_9xy0 x y s = skip_if (V s ! unat x \<noteq> V s ! unat y) s"

definition case_Annn :: "u16 \<Rightarrow> Chip_8 \<Rightarrow> Chip_8" where
  "case_Annn nnn s = s\<lparr>VI := nnn\<rparr>"

definition case_Bnnn :: "u16 \<Rightarrow> Chip_8 \<Rightarrow> Chip_8" where
  "case_Bnnn nnn s = s\<lparr>PC := nnn + ucast (V s ! 0)\<rparr>"

text \<open>\<open>V[x] = randomSeed(randGen) & kk\<close>: only the low eight bits of the conjunction are
  stored, so the sign extension of \<open>kk\<close> has no effect.\<close>

definition case_Cxkk :: "u16 \<Rightarrow> u8 \<Rightarrow> u8 \<Rightarrow> Chip_8 \<Rightarrow> Chip_8" where
  "case_Cxkk rnd x kk s = s\<lparr>V := (V s)[unat x := ucast rnd AND kk]\<rparr>"

text \<open>The body of the inner loop of \<open>Dxyn\<close>, for one \<open>bit\<close> (here \<open>bit_i\<close>) of the sprite line of row
  \<open>spriteRow\<close>. \<open>V[x]\<close> and \<open>V[y]\<close> are read here, in every iteration.\<close>

definition draw_bit :: "u8 \<Rightarrow> u8 \<Rightarrow> u8 \<Rightarrow> nat \<Rightarrow> nat \<Rightarrow> Chip_8 \<Rightarrow> Chip_8" where
  "draw_bit x y nextSpriteLine spriteRow bit_i s =
     (let horizontalOffset = (bit_i + unat (V s ! unat x)) mod W;
          verticalOffset = (spriteRow + unat (V s ! unat y)) mod H;
          drawBit = drop_bit (7 - bit_i) nextSpriteLine AND 1;
          i = W * verticalOffset + horizontalOffset;
          s1 = (if pixels s ! i = 1 then s\<lparr>V := (V s)[15 := 1]\<rparr> else s)
      in s1\<lparr>pixels := (pixels s1)[i := pixels s1 ! i XOR drawBit]\<rparr>)"

definition draw_line :: "u8 \<Rightarrow> u8 \<Rightarrow> u8 \<Rightarrow> nat \<Rightarrow> Chip_8 \<Rightarrow> Chip_8" where
  "draw_line x y nextSpriteLine spriteRow s =
     fold (draw_bit x y nextSpriteLine spriteRow) [0..<8] s"

fun draw_rows :: "u8 \<Rightarrow> u8 \<Rightarrow> nat list \<Rightarrow> Chip_8 \<Rightarrow> fault + Chip_8" where
  "draw_rows x y [] s = Inr s"
| "draw_rows x y (spriteRow # rows) s =
     (let a = unat (VI s AND 0xFFF) + spriteRow in
      if a < length (mem s)
      then draw_rows x y rows (draw_line x y (mem s ! a) spriteRow s)
      else Inl (OutOfRange v_mem a))"

definition case_Dxyn :: "u8 \<Rightarrow> u8 \<Rightarrow> u8 \<Rightarrow> Chip_8 \<Rightarrow> fault + Chip_8" where
  "case_Dxyn x y n s = draw_rows x y [0..<unat n] (s\<lparr>V := (V s)[15 := 0]\<rparr>)"

text \<open>\<open>mem[PC + 1 - 2]\<close> is the second byte of the instruction, passed as \<open>b1\<close>.\<close>

definition case_E :: "u8 \<Rightarrow> u8 \<Rightarrow> Chip_8 \<Rightarrow> fault + Chip_8" where
  "case_E b1 x s =
     (if b1 = 0x9E then
        (if 15 < V s ! unat x then Inl InvalidCode
         else Inr (skip_if (keys s ! unat (V s ! unat x) = DOWN) s))
      else if b1 = 0xA1 then
        (if unat (V s ! unat x) < length (keys s)
         then Inr (skip_if (keys s ! unat (V s ! unat x) = UP) s)
         else Inl (OutOfRange v_keys (unat (V s ! unat x))))
      else Inl InvalidOpcode)"

definition case_Fx0A :: "u8 \<Rightarrow> Chip_8 \<Rightarrow> Chip_8" where
  "case_Fx0A x s =
     (case find (\<lambda>i. keys s ! i = DOWN) [0..<length (keys s)] of
        Some i \<Rightarrow> s\<lparr>V := (V s)[unat x := of_nat i]\<rparr>
      | None \<Rightarrow> s\<lparr>PC := PC s - 2\<rparr>)"

definition case_Fx33 :: "u8 \<Rightarrow> Chip_8 \<Rightarrow> fault + Chip_8" where
  "case_Fx33 x s =
     (let val = (ucast (V s ! unat x) :: u16); a = unat (VI s) in
      if a + 2 < length (mem s)
      then Inr (s\<lparr>mem := (mem s)[a + 2 := ucast (val mod 10),
                                  a + 1 := ucast ((val div 10) mod 10),
                                  a + 0 := ucast ((val div 10 div 10) mod 10)]\<rparr>)
      else Inl (OutOfRange v_mem (a + 2)))"

fun case_Fx55 :: "nat list \<Rightarrow> Chip_8 \<Rightarrow> fault + Chip_8" where
  "case_Fx55 [] s = Inr s"
| "case_Fx55 (i # rest) s =
     (let a = unat (VI s) + i in
      if a < length (mem s)
      then case_Fx55 rest (s\<lparr>mem := (mem s)[a := V s ! i]\<rparr>)
      else Inl (OutOfRange v_mem a))"

fun case_Fx65 :: "nat list \<Rightarrow> Chip_8 \<Rightarrow> fault + Chip_8" where
  "case_Fx65 [] s = Inr s"
| "case_Fx65 (i # rest) s =
     (let a = unat (VI s) + i in
      if a < length (mem s)
      then case_Fx65 rest (s\<lparr>V := (V s)[i := mem s ! a]\<rparr>)
      else Inl (OutOfRange v_mem a))"

definition case_F :: "u8 \<Rightarrow> u8 \<Rightarrow> Chip_8 \<Rightarrow> fault + Chip_8" where
  "case_F b1 x s =
     (if b1 = 0x07 then Inr (s\<lparr>V := (V s)[unat x := delayTimer s]\<rparr>)
      else if b1 = 0x0A then Inr (case_Fx0A x s)
      else if b1 = 0x15 then Inr (s\<lparr>delayTimer := V s ! unat x\<rparr>)
      else if b1 = 0x18 then Inr (s\<lparr>soundTimer := V s ! unat x\<rparr>)
      else if b1 = 0x1E then Inr (s\<lparr>VI := VI s + ucast (V s ! unat x)\<rparr>)
      else if b1 = 0x29 then Inr (s\<lparr>VI := of_nat FONT_ADDRESS + ucast (V s ! unat x) * 5\<rparr>)
      else if b1 = 0x33 then case_Fx33 x s
      else if b1 = 0x55 then case_Fx55 [0..<unat x + 1] s
      else if b1 = 0x65 then case_Fx65 [0..<unat x + 1] s
      else Inl InvalidOpcodeF)"

subsection \<open>\<open>ExecuteInst\<close>, \<open>RunCycle\<close> and the loop of \<open>main\<close>\<close>

definition ExecuteInst :: "u16 \<Rightarrow> Chip_8 \<Rightarrow> fault + Chip_8" where
  "ExecuteInst rnd s =
     (if length (mem s) \<le> unat (PC s) then Inl IncorrectPC
      else if length (mem s) \<le> unat (PC s) + 1 then Inl (OutOfRange v_mem (unat (PC s) + 1))
      else
        (let nnn = op_nnn s; n = op_n s; x = op_x s; y = op_y s; kk = op_kk s;
             u = op_u s; v = op_v s;
             s1 = s\<lparr>PC := PC s + 2\<rparr>
         in
           if opcode s = CLS then Inr (s1\<lparr>pixels := replicate (length (pixels s1)) 0\<rparr>)
           else if opcode s = RET then case_RET s1
           else if u = 1 then case_1nnn nnn s1
           else if u = 2 then case_2nnn nnn s1
           else if u = 3 then Inr (case_3xkk x kk s1)
           else if u = 4 then Inr (case_4xkk x kk s1)
           else if u = 5 then Inr (case_5xy0 x y s1)
           else if u = 6 then Inr (case_6xkk x kk s1)
           else if u = 7 then Inr (case_7xkk x kk s1)
           else if u = 8 then case_8 v x y s1
           else if u = 9 then Inr (case_9xy0 x y s1)
           else if u = 0xA then Inr (case_Annn nnn s1)
           else if u = 0xB then Inr (case_Bnnn nnn s1)
           else if u = 0xC then Inr (case_Cxkk rnd x kk s1)
           else if u = 0xD then case_Dxyn x y n s1
           else if u = 0xE then case_E (fetch1 s) x s1
           else if u = 0xF then case_F (fetch1 s) x s1
           else Inl InvalidOpcodeStart))"

definition timers :: "Chip_8 \<Rightarrow> Chip_8" where
  "timers s =
     (let s1 = (if 0 < delayTimer s then s\<lparr>delayTimer := delayTimer s - 1\<rparr> else s)
      in if 0 < soundTimer s1 then s1\<lparr>soundTimer := soundTimer s1 - 1\<rparr> else s1)"

definition RunCycle :: "u16 \<Rightarrow> Chip_8 \<Rightarrow> fault + Chip_8" where
  "RunCycle rnd s =
     (case ExecuteInst rnd s of Inl e \<Rightarrow> Inl e | Inr s1 \<Rightarrow> Inr (timers s1))"

definition clockSpeed :: int where "clockSpeed = 300"

text \<open>The loop \<open>for (int i = 0; i < clockSpeed; i+=2) CPU->RunCycle();\<close> that \<open>main\<close>
  runs once per rendered frame, between polling the input and \<open>drawPixels\<close>.
  \<open>rnds i\<close> is the random number available to the cycle with loop counter \<open>i\<close>.\<close>

function main_for :: "int \<Rightarrow> (int \<Rightarrow> u16) \<Rightarrow> Chip_8 \<Rightarrow> fault + Chip_8" where
  "main_for i rnds s =
     (if i < clockSpeed
      then (case RunCycle (rnds i) s of Inl e \<Rightarrow> Inl e | Inr s1 \<Rightarrow> main_for (i + 2) rnds s1)
      else Inr s)"
  by pat_completeness auto
termination
  by (relation "measure (\<lambda>(i, rnds, s). nat (clockSpeed - i))") auto

declare main_for.simps [simp del]

text \<open>\<open>RunCycle\<close> once for every loop counter of a list, stopping at the first fault: the
  unrolled form of the loop, used to say how many cycles a frame runs.\<close>

fun RunCycles :: "(int \<Rightarrow> u16) \<Rightarrow> int list \<Rightarrow> Chip_8 \<Rightarrow> fault + Chip_8" where
  "RunCycles rnds [] s = Inr s"
| "RunCycles rnds (i # rest) s =
     (case RunCycle (rnds i) s of Inl e \<Rightarrow> Inl e | Inr s1 \<Rightarrow> RunCycles rnds rest s1)"

subsection \<open>A sprite as a list of pixel updates\<close>

text \<open>Not part of the program: the list of (pixel index, sprite bit) pairs that \<open>Dxyn\<close>
  visits when the coordinates are \<open>vx\<close>, \<open>vy\<close> and the sprite starts at address \<open>a\<close> of the
  memory \<open>m\<close>, and the XOR of one such pair into the display. They are used to prove what
  two draws in a row do.\<close>

definition xor_at :: "nat \<times> u8 \<Rightarrow> u8 list \<Rightarrow> u8 list" where
  "xor_at c p = p[fst c := p ! fst c XOR snd c]"

definition line_ops :: "u8 \<Rightarrow> u8 \<Rightarrow> u8 \<Rightarrow> nat \<Rightarrow> nat list \<Rightarrow> (nat \<times> u8) list" where
  "line_ops vx vy l r bs =
     map (\<lambda>b. (W * ((r + unat vy) mod H) + (b + unat vx) mod W, drop_bit (7 - b) l AND 1)) bs"

definition sprite_ops :: "u8 list \<Rightarrow> nat \<Rightarrow> u8 \<Rightarrow> u8 \<Rightarrow> nat list \<Rightarrow> (nat \<times> u8) list" where
  "sprite_ops m a vx vy rows = concat (map (\<lambda>r. line_ops vx vy (m ! (a + r)) r [0..<8]) rows)"

subsection \<open>Example machines\<close>

text \<open>A machine of the constructor's sizes with empty memory and \<open>PC\<close> at the program
  origin \<open>0x200\<close>; the examples below put an instruction there.\<close>

definition blank :: Chip_8 where
  "blank =
     \<lparr> mem = replicate 4096 0, V = replicate 16 0, keys = replicate 16 UP,
       VI = 0, soundTimer = 0, delayTimer = 0, PC = 0x200, SP = 0,
       callstack = replicate 16 0, pixels = replicate 2048 0 \<rparr>"

text \<open>\<open>8014\<close> (ADD V0, V1) with \<open>V0 = 200\<close>, \<open>V1 = 100\<close>.\<close>

definition add_state :: Chip_8 where
  "add_state =
     blank\<lparr>mem := (mem blank)[0x200 := 0x80, 0x201 := 0x14],
           V := (V blank)[0 := 200, 1 := 100]\<rparr>"

text \<open>\<open>8F04\<close> (ADD VF, V0) with \<open>VF = 1\<close>, \<open>V0 = 1\<close>, and the state the program leaves.\<close>

definition add_vf_state :: Chip_8 where
  "add_vf_state =
     blank\<lparr>mem := (mem blank)[0x200 := 0x8F, 0x201 := 0x04],
           V := (V blank)[15 := 1, 0 := 1]\<rparr>"

definition add_vf_after :: Chip_8 where
  "add_vf_after = add_vf_state\<lparr>PC := 0x202, V := (V add_vf_state)[15 := 2]\<rparr>"

text \<open>\<open>8015\<close> (SUB V0, V1) with \<open>V0 = 3\<close>, \<open>V1 = 5\<close>.\<close>

definition sub_state :: Chip_8 where
  "sub_state =
     blank\<lparr>mem := (mem blank)[0x200 := 0x80, 0x201 := 0x15],
           V := (V blank)[0 := 3, 1 := 5]\<rparr>"

text \<open>\<open>8F05\<close> (SUB VF, V0) with \<open>VF = 5\<close>, \<open>V0 = 3\<close>, and the state the program leaves.\<close>

definition sub_vf_state :: Chip_8 where
  "sub_vf_state =
     blank\<lparr>mem := (mem blank)[0x200 := 0x8F, 0x201 := 0x05],
           V := (V blank)[15 := 5, 0 := 3]\<rparr>"

definition sub_vf_after :: Chip_8 where
  "sub_vf_after = sub_vf_state\<lparr>PC := 0x202, V := (V sub_vf_state)[15 := 254]\<rparr>"

text \<open>\<open>80F5\<close> (SUB V0, VF) with \<open>V0 = 5\<close>, \<open>VF = 3\<close>, and the state the program leaves.\<close>

definition sub_y15_state :: Chip_8 where
  "sub_y15_state =
     blank\<lparr>mem := (mem blank)[0x200 := 0x80, 0x201 := 0xF5],
           V := (V blank)[0 := 5, 15 := 3]\<rparr>"

definition sub_y15_after :: Chip_8 where
  "sub_y15_after = sub_y15_state\<lparr>PC := 0x202, V := (V sub_y15_state)[15 := 1, 0 := 4]\<rparr>"

text \<open>\<open>3080\<close> (SE V0, 0x80) and \<open>4080\<close> (SNE V0, 0x80), both with \<open>V0 = 0x80\<close>.\<close>

definition se_state :: Chip_8 where
  "se_state =
     blank\<lparr>mem := (mem blank)[0x200 := 0x30, 0x201 := 0x80], V := (V blank)[0 := 0x80]\<rparr>"

definition sne_state :: Chip_8 where
  "sne_state =
     blank\<lparr>mem := (mem blank)[0x200 := 0x40, 0x201 := 0x80], V := (V blank)[0 := 0x80]\<rparr>"

text \<open>\<open>00EE\<close> (RET) with an empty call stack, \<open>SP = 0\<close>.\<close>

definition ret_state :: Chip_8 where
  "ret_state = blank\<lparr>mem := (mem blank)[0x200 := 0x00, 0x201 := 0xEE]\<rparr>"

text \<open>\<open>D011\<close> (DRW V0, V1, 1) with \<open>V0 = V1 = 0\<close>, \<open>I = 0x300\<close>, the sprite byte
  \<open>mem[0x300] = 0x00\<close>, and the pixel at column 0 of row 0 on.\<close>

definition draw_state :: Chip_8 where
  "draw_state =
     blank\<lparr>mem := (mem blank)[0x200 := 0xD0, 0x201 := 0x11], VI := 0x300,
           pixels := (pixels blank)[0 := 1]\<rparr>"

text \<open>\<open>F01E\<close> (ADD I, V0) with \<open>I = 0xFFF\<close>, \<open>V0 = 1\<close>, and the state the program leaves;
  and the same instruction with \<open>I = 0x300\<close>, \<open>V0 = 5\<close>.\<close>

definition addi_state :: Chip_8 where
  "addi_state =
     blank\<lparr>mem := (mem blank)[0x200 := 0xF0, 0x201 := 0x1E], V := (V blank)[0 := 1],
           VI := 0xFFF\<rparr>"

definition addi_after :: Chip_8 where
  "addi_after = addi_state\<lparr>PC := 0x202, VI := 0x1000\<rparr>"

definition addi_small_state :: Chip_8 where
  "addi_small_state =
     blank\<lparr>mem := (mem blank)[0x200 := 0xF0, 0x201 := 0x1E], V := (V blank)[0 := 5],
           VI := 0x300\<rparr>"

text \<open>\<open>E0A1\<close> (SKNP V0) with \<open>V0 = 16\<close>.\<close>

definition sknp_state :: Chip_8 where
  "sknp_state =
     blank\<lparr>mem := (mem blank)[0x200 := 0xE0, 0x201 := 0xA1], V := (V blank)[0 := 16]\<rparr>"

text \<open>\<open>D0F1\<close> (DRW V0, VF, 1) at \<open>0x200\<close> and again at \<open>0x202\<close>, with all registers 0,
  \<open>I = 0x300\<close>, the sprite byte \<open>mem[0x300] = 0xFF\<close> and an empty display.\<close>

definition draw_twice_state :: Chip_8 where
  "draw_twice_state =
     blank\<lparr>mem := (mem blank)[0x200 := 0xD0, 0x201 := 0xF1, 0x202 := 0xD0, 0x203 := 0xF1,
                              0x300 := 0xFF],
           VI := 0x300\<rparr>"

text \<open>\<open>2300\<close> (CALL 0x300) at \<open>0x200\<close> and \<open>00EE\<close> (RET) at \<open>0x300\<close>.\<close>

definition call_state :: Chip_8 where
  "call_state =
     blank\<lparr>mem := (mem blank)[0x200 := 0x23, 0x201 := 0x00, 0x300 := 0x00, 0x301 := 0xEE]\<rparr>"

text \<open>\<open>1200\<close> (JP 0x200) at \<open>0x200\<close>, a program that jumps to itself, with the delay timer
  at 200 (and at any value \<open>d\<close>); a random source that always yields 0.\<close>

definition loop_state :: Chip_8 where
  "loop_state =
     blank\<lparr>mem := (mem blank)[0x200 := 0x12, 0x201 := 0x00], delayTimer := 200\<rparr>"

definition loop_with :: "u8 \<Rightarrow> Chip_8" where
  "loop_with d = loop_state\<lparr>delayTimer := d\<rparr>"

definition no_random :: "int \<Rightarrow> u16" where
  "no_random i = 0"

section \<open>Properties\<close>

lemma sized_Chip_8_new: "sized Chip_8_new"
  by (simp add: sized_def Chip_8_new_def font_def W_def H_def)

lemma sized_blank: "sized blank"
  by (simp add: sized_def blank_def W_def H_def)

lemmas decode_defs =
  fetch0_def fetch1_def opcode_def op_nnn_def op_n_def op_x_def op_y_def op_kk_def
  op_u_def op_v_def CLS_def RET_def

subsection \<open>Words\<close>

lemma ucast_8_16_8: "ucast (ucast (w :: u8) :: u16) = w"
  by (rule bit_word_eqI) (auto simp add: bit_simps)

lemma low8: "(ucast ((r :: u16) AND 0xFF) :: u8) = ucast r"
proof -
  have "r AND 0xFF = take_bit 8 r"
    by (simp add: take_bit_eq_mask mask_eq_exp_minus_1)
  moreover have "(ucast (take_bit 8 r) :: u8) = ucast r"
    by (rule bit_word_eqI) (auto simp add: bit_simps)
  ultimately show ?thesis by simp
qed

lemma unat_u8_lt: "unat (a :: u8) < 256"
  using unsigned_less [of a, where 'a = nat] by simp

lemma unat_ucast_8_16: "unat (ucast (a :: u8) :: u16) = unat a"
  using unat_u8_lt [of a] by (simp add: unsigned_ucast_eq take_bit_nat_eq_self)

lemma unat_sum16: "unat (ucast (a :: u8) + ucast (b :: u8) :: u16) = unat a + unat b"
  using unat_u8_lt [of a] unat_u8_lt [of b]
  by (simp add: unat_word_ariths unat_ucast_8_16)

lemma unat_add8: "unat ((a :: u8) + b) = (unat a + unat b) mod 256"
  by (simp add: unat_word_ariths)

lemma add_trunc: "(ucast (ucast (a :: u8) + ucast (b :: u8) :: u16) :: u8) = a + b"
proof -
  have "unat (ucast (ucast a + ucast b :: u16) :: u8) = (unat a + unat b) mod 256"
    by (simp only: unsigned_ucast_eq unat_sum16 take_bit_eq_mod) simp
  then show ?thesis
    by (simp only: word_unat_eq_iff unat_add8)
qed

lemma carry: "(255 < (ucast (a :: u8) + ucast (b :: u8) :: u16)) = (255 < unat a + unat b)"
  by (simp add: word_less_nat_alt unat_sum16)

lemma unat_sub8: "unat ((a :: u8) - b) = (unat a + 256 - unat b) mod 256"
proof (cases "unat b \<le> unat a")
  case True
  then have eq: "unat a + 256 - unat b = (unat a - unat b) + 256" by simp
  have lt: "unat a - unat b < 256" using unat_u8_lt [of a] by simp
  have "(unat a + 256 - unat b) mod 256 = (unat a - unat b) mod 256"
    by (simp only: eq mod_add_self2)
  also have "\<dots> = unat a - unat b" using lt by (rule mod_less)
  finally have "(unat a + 256 - unat b) mod 256 = unat a - unat b" .
  moreover have "unat (a - b) = unat a - unat b" using True by (simp add: unat_sub_if_size)
  ultimately show ?thesis by (simp only:)
next
  case False
  then have "unat a + 256 - unat b < 256" by simp
  then show ?thesis using False by (simp add: unat_sub_if_size word_size)
qed

lemma unat_eq_15: "(unat (w :: u8) = 15) = (w = 15)"
  by (simp add: word_unat_eq_iff)

lemma idx_lt16: "unat ((w :: u8) AND 0xF) < 16"
proof -
  have "w AND 0xF \<le> 0xF" by (rule word_and_le1)
  then show ?thesis by (simp add: word_le_nat_alt)
qed

subsection \<open>Decoding and dispatch\<close>

lemma opcode_high: "drop_bit 8 (opcode s) = ucast (fetch0 s)"
  unfolding opcode_def
  by (rule bit_word_eqI) (auto simp add: bit_simps dest: bit_imp_le_length)

lemma fetch0_opcode: "fetch0 s = ucast (drop_bit 8 (opcode s))"
  by (simp add: opcode_high ucast_8_16_8)

lemma opcode_CLS_u: "opcode s = CLS \<Longrightarrow> op_u s = 0"
  by (simp add: op_u_def fetch0_opcode CLS_def)

lemma opcode_RET_u: "opcode s = RET \<Longrightarrow> op_u s = 0"
  by (simp add: op_u_def fetch0_opcode RET_def)

lemma op_x_lt16: "unat (op_x s) < 16"
  by (simp add: op_x_def idx_lt16)

lemma op_y_lt16: "unat (op_y s) < 16"
  by (simp add: op_y_def idx_lt16)

text \<open>An instruction whose first nibble is not 0 goes through the \<open>switch\<close> on \<open>u\<close>.\<close>

lemma ExecuteInst_u:
  assumes "sized s" "unat (PC s) + 1 < 4096" "op_u s \<noteq> 0"
  shows "ExecuteInst rnd s =
     (let nnn = op_nnn s; n = op_n s; x = op_x s; y = op_y s; kk = op_kk s;
             u = op_u s; v = op_v s;
             s1 = s\<lparr>PC := PC s + 2\<rparr>
         in
           if u = 1 then case_1nnn nnn s1
           else if u = 2 then case_2nnn nnn s1
           else if u = 3 then Inr (case_3xkk x kk s1)
           else if u = 4 then Inr (case_4xkk x kk s1)
           else if u = 5 then Inr (case_5xy0 x y s1)
           else if u = 6 then Inr (case_6xkk x kk s1)
           else if u = 7 then Inr (case_7xkk x kk s1)
           else if u = 8 then case_8 v x y s1
           else if u = 9 then Inr (case_9xy0 x y s1)
           else if u = 0xA then Inr (case_Annn nnn s1)
           else if u = 0xB then Inr (case_Bnnn nnn s1)
           else if u = 0xC then Inr (case_Cxkk rnd x kk s1)
           else if u = 0xD then case_Dxyn x y n s1
           else if u = 0xE then case_E (fetch1 s) x s1
           else if u = 0xF then case_F (fetch1 s) x s1
           else Inl InvalidOpcodeStart)"
proof -
  have "opcode s \<noteq> CLS" "opcode s \<noteq> RET"
    using assms(3) opcode_CLS_u opcode_RET_u by blast+
  moreover have "\<not> length (mem s) \<le> unat (PC s)" "\<not> length (mem s) \<le> unat (PC s) + 1"
    using assms(1,2) by (simp_all add: sized_def)
  ultimately show ?thesis
    unfolding ExecuteInst_def by (simp only: if_False)
qed

subsection \<open>\<open>8xy4\<close>: ADD Vx, Vy\<close>

text \<open>
  Claim C2, as amended. For every pair of register indices \<open>x\<close>, \<open>y\<close> and every starting
  state of the constructor's sizes, \<open>8xy4\<close> executes without a fault, advances \<open>PC\<close> by 2
  and leaves \<open>(old V[x] + old V[y]) mod 256\<close> in \<open>V[x]\<close> (also for \<open>x = 15\<close> and for
  \<open>y = 15\<close>). When \<open>x\<close> is not 15, \<open>VF\<close> is 1 if the sum of the two old values exceeds 255
  and 0 otherwise. (When \<open>x = 15\<close> the sum is written to \<open>VF\<close> after the flag, so \<open>VF\<close>
  holds the sum.)
\<close>

theorem add_8xy4:
  assumes "sized s" "unat (PC s) + 1 < 4096" "op_u s = 8" "op_v s = 4"
  shows "\<exists>s'. ExecuteInst rnd s = Inr s' \<and> PC s' = PC s + 2 \<and>
     V s' ! unat (op_x s) = V s ! unat (op_x s) + V s ! unat (op_y s) \<and>
     unat (V s' ! unat (op_x s)) =
       (unat (V s ! unat (op_x s)) + unat (V s ! unat (op_y s))) mod 256 \<and>
     (op_x s \<noteq> 15 \<longrightarrow>
        V s' ! 15 =
          (if 255 < unat (V s ! unat (op_x s)) + unat (V s ! unat (op_y s)) then 1 else 0))"
proof -
  let ?x = "unat (op_x s)"
  have lens: "length (V s) = 16" using assms(1) by (simp add: sized_def)
  have x16: "?x < 16" by (rule op_x_lt16)
  have ex: "ExecuteInst rnd s = Inr (case_8xy4 (op_x s) (op_y s) (s\<lparr>PC := PC s + 2\<rparr>))"
    using assms by (simp add: ExecuteInst_u Let_def case_8_def)
  show ?thesis
    unfolding ex using lens x16
    by (simp add: case_8xy4_def Let_def low8 add_trunc carry unat_add8 unat_eq_15)
qed

text \<open>The theorem at \<open>8014\<close> with \<open>V0 = 200\<close> and \<open>V1 = 100\<close>: \<open>V0\<close> becomes 44 and \<open>VF\<close> 1.\<close>

theorem add_8xy4_witness:
  "sized add_state \<and> unat (PC add_state) + 1 < 4096 \<and> op_u add_state = 8 \<and>
   op_v add_state = 4 \<and>
   (\<exists>s'. ExecuteInst 0 add_state = Inr s' \<and> unat (V s' ! 0) = 44 \<and> V s' ! 15 = 1)"
proof -
  have h: "sized add_state" "unat (PC add_state) + 1 < 4096" "op_u add_state = 8"
    "op_v add_state = 4"
    by (simp_all add: add_state_def blank_def sized_def W_def H_def decode_defs)
  have x: "op_x add_state = 0" and y: "op_y add_state = 1"
    and v: "V add_state ! 0 = 200" "V add_state ! Suc 0 = 100"
    by (simp_all add: add_state_def blank_def decode_defs)
  show ?thesis
    using h add_8xy4 [OF h, of 0] by (auto simp add: x y v)
qed

text \<open>
  Claim C2 as stated fails at \<open>x = 15\<close>: \<open>8F04\<close> with \<open>VF = 1\<close> and \<open>V0 = 1\<close> leaves
  \<open>VF = 2\<close>, although the sum 2 does not exceed 255 and the claim asks for \<open>VF = 0\<close>.
\<close>

theorem add_8xy4_VF_counterexample:
  "sized add_vf_state \<and> op_u add_vf_state = 8 \<and> op_v add_vf_state = 4 \<and>
   op_x add_vf_state = 15 \<and> op_y add_vf_state = 0 \<and>
   ExecuteInst 0 add_vf_state = Inr add_vf_after \<and>
   unat (V add_vf_state ! 15) + unat (V add_vf_state ! 0) = 2 \<and>
   V add_vf_after ! 15 = 2"
  by (simp add: add_vf_after_def add_vf_state_def blank_def sized_def W_def H_def
      decode_defs ExecuteInst_def case_8_def case_8xy4_def Let_def)

subsection \<open>\<open>8xy5\<close>: SUB Vx, Vy\<close>

lemma uint_sub8: "uint ((a :: u8) - b) = (uint a - uint b) mod 256"
  by (simp add: uint_word_ariths)

lemma minus_2_u8: "(- 2 :: u8) = 254"
  by simp

text \<open>
  Claim C3, as amended. For every pair of register indices \<open>x\<close>, \<open>y\<close> and every starting
  state of the constructor's sizes, \<open>8xy5\<close> executes without a fault and advances \<open>PC\<close> by 2.
  When \<open>x\<close> is not 15 (or \<open>y\<close> is 15), \<open>VF\<close> is 1 exactly when the pre-instruction value of
  \<open>V[x]\<close> is strictly greater than the pre-instruction value of \<open>V[y]\<close>, and 0 otherwise.
  When neither \<open>x\<close> nor \<open>y\<close> is 15 (or \<open>x = y\<close>), \<open>V[x]\<close> is
  \<open>(old V[x] - old V[y]) mod 256\<close>. Nothing is said about \<open>V[x]\<close> when exactly one of
  \<open>x\<close>, \<open>y\<close> is 15: the program subtracts after it has written the flag to \<open>V[15]\<close>.
\<close>

theorem sub_8xy5:
  assumes "sized s" "unat (PC s) + 1 < 4096" "op_u s = 8" "op_v s = 5"
  shows "\<exists>s'. ExecuteInst rnd s = Inr s' \<and> PC s' = PC s + 2 \<and>
     (op_x s \<noteq> 15 \<or> op_y s = 15 \<longrightarrow>
        V s' ! 15 =
          (if unat (V s ! unat (op_y s)) < unat (V s ! unat (op_x s)) then 1 else 0)) \<and>
     (op_x s \<noteq> 15 \<and> op_y s \<noteq> 15 \<or> op_x s = op_y s \<longrightarrow>
        V s' ! unat (op_x s) = V s ! unat (op_x s) - V s ! unat (op_y s) \<and>
        uint (V s' ! unat (op_x s)) =
          (uint (V s ! unat (op_x s)) - uint (V s ! unat (op_y s))) mod 256)"
proof -
  let ?x = "unat (op_x s)" and ?y = "unat (op_y s)"
  have lens: "length (V s) = 16" using assms(1) by (simp add: sized_def)
  have x16: "?x < 16" and y16: "?y < 16" by (rule op_x_lt16, rule op_y_lt16)
  have ex: "ExecuteInst rnd s = Inr (case_8xy5 (op_x s) (op_y s) (s\<lparr>PC := PC s + 2\<rparr>))"
    using assms by (simp add: ExecuteInst_u Let_def case_8_def)
  show ?thesis
    unfolding ex using lens x16 y16
    by (auto simp add: case_8xy5_def Let_def uint_sub8 unat_eq_15 word_less_nat_alt
        nth_list_update)
qed

text \<open>The theorem at \<open>8015\<close> with \<open>V0 = 3\<close> and \<open>V1 = 5\<close>: \<open>VF\<close> becomes 0 and \<open>V0\<close> 254.\<close>

theorem sub_8xy5_witness:
  "sized sub_state \<and> unat (PC sub_state) + 1 < 4096 \<and> op_u sub_state = 8 \<and>
   op_v sub_state = 5 \<and>
   (\<exists>s'. ExecuteInst 0 sub_state = Inr s' \<and> V s' ! 15 = 0 \<and> uint (V s' ! 0) = 254)"
proof -
  have h: "sized sub_state" "unat (PC sub_state) + 1 < 4096" "op_u sub_state = 8"
    "op_v sub_state = 5"
    by (simp_all add: sub_state_def blank_def sized_def W_def H_def decode_defs)
  have x: "op_x sub_state = 0" and y: "op_y sub_state = 1"
    and v: "V sub_state ! 0 = 3" "V sub_state ! Suc 0 = 5"
    by (simp_all add: sub_state_def blank_def decode_defs)
  show ?thesis
    using h sub_8xy5 [OF h, of 0] by (auto simp add: x y v)
qed

text \<open>
  Claim C3 as stated fails when \<open>x\<close> or \<open>y\<close> is 15. \<open>8F05\<close> with \<open>VF = 5\<close>, \<open>V0 = 3\<close>
  leaves \<open>VF = 254\<close>, where the claim asks for \<open>VF = 1\<close> (and \<open>V[x] = 2\<close>, the same
  register). \<open>80F5\<close> with \<open>V0 = 5\<close>, \<open>VF = 3\<close> leaves \<open>V0 = 4\<close>, where the claim asks for
  \<open>V0 = 2\<close>.
\<close>

theorem sub_8xy5_counterexample:
  "sized sub_vf_state \<and> op_u sub_vf_state = 8 \<and> op_v sub_vf_state = 5 \<and>
   op_x sub_vf_state = 15 \<and> op_y sub_vf_state = 0 \<and>
   V sub_vf_state ! 15 = 5 \<and> V sub_vf_state ! 0 = 3 \<and>
   ExecuteInst 0 sub_vf_state = Inr sub_vf_after \<and> V sub_vf_after ! 15 = 254 \<and>
   sized sub_y15_state \<and> op_u sub_y15_state = 8 \<and> op_v sub_y15_state = 5 \<and>
   op_x sub_y15_state = 0 \<and> op_y sub_y15_state = 15 \<and>
   V sub_y15_state ! 0 = 5 \<and> V sub_y15_state ! 15 = 3 \<and>
   ExecuteInst 0 sub_y15_state = Inr sub_y15_after \<and>
   V sub_y15_after ! 15 = 1 \<and> V sub_y15_after ! 0 = 4"
  by (simp add: sub_vf_after_def sub_vf_state_def sub_y15_after_def sub_y15_state_def
      blank_def sized_def W_def H_def
      decode_defs ExecuteInst_def case_8_def case_8xy5_def Let_def minus_2_u8)

subsection \<open>\<open>Fx1E\<close>: ADD I, Vx\<close>

lemma unat_ucast_add16:
  "unat ((i :: u16) + ucast (a :: u8)) = (unat i + unat a) mod 65536"
  by (simp add: unat_word_ariths unat_ucast_8_16)

lemma unat_low12: "unat ((w :: u16) AND 0xFFF) = unat w mod 4096"
proof -
  have e: "w AND 0xFFF = take_bit 12 w"
    by (simp add: take_bit_eq_mask mask_eq_exp_minus_1)
  have "unat (w AND 0xFFF) = unat (take_bit 12 w)" by (simp only: e)
  also have "\<dots> = take_bit 12 (unat w)" by (rule unsigned_take_bit_eq)
  also have "\<dots> = unat w mod 4096" by (simp add: take_bit_eq_mod)
  finally show ?thesis .
qed

text \<open>
  Claim C7, as amended. For every starting state of the constructor's sizes and every
  register index \<open>x\<close>, \<open>Fx1E\<close> executes without a fault, advances \<open>PC\<close> by 2 and leaves
  \<open>(old I + V[x]) mod 65536\<close> in the 16-bit index register \<open>I\<close>, all other fields unchanged.
  The stored value is not masked: only its low 12 bits equal \<open>(old I + V[x]) mod 4096\<close>.
\<close>

theorem add_i_Fx1E:
  assumes "sized s" "unat (PC s) + 1 < 4096" "op_u s = 0xF" "fetch1 s = 0x1E"
  shows "ExecuteInst rnd s =
           Inr (s\<lparr>PC := PC s + 2, VI := VI s + ucast (V s ! unat (op_x s))\<rparr>) \<and>
         unat (VI s + ucast (V s ! unat (op_x s))) =
           (unat (VI s) + unat (V s ! unat (op_x s))) mod 65536 \<and>
         unat ((VI s + ucast (V s ! unat (op_x s))) AND 0xFFF) =
           (unat (VI s) + unat (V s ! unat (op_x s))) mod 4096"
proof -
  have "ExecuteInst rnd s =
      Inr (s\<lparr>PC := PC s + 2, VI := VI s + ucast (V s ! unat (op_x s))\<rparr>)"
    using assms by (simp add: ExecuteInst_u Let_def case_F_def)
  moreover have "(unat (VI s) + unat (V s ! unat (op_x s))) mod 65536 mod 4096 =
      (unat (VI s) + unat (V s ! unat (op_x s))) mod 4096"
    by (rule mod_mod_cancel) simp
  ultimately show ?thesis
    by (simp add: unat_ucast_add16 unat_low12)
qed

text \<open>The theorem at \<open>F01E\<close> with \<open>I = 0x300\<close> and \<open>V0 = 5\<close>: \<open>I\<close> becomes \<open>0x305\<close>.\<close>

theorem add_i_Fx1E_witness:
  "sized addi_small_state \<and> unat (PC addi_small_state) + 1 < 4096 \<and>
   op_u addi_small_state = 0xF \<and> fetch1 addi_small_state = 0x1E \<and>
   ExecuteInst 0 addi_small_state = Inr (addi_small_state\<lparr>PC := 0x202, VI := 0x305\<rparr>)"
proof -
  have h: "sized addi_small_state" "unat (PC addi_small_state) + 1 < 4096"
    "op_u addi_small_state = 0xF" "fetch1 addi_small_state = 0x1E"
    by (simp_all add: addi_small_state_def blank_def sized_def W_def H_def decode_defs)
  have v: "PC addi_small_state + 2 = 0x202"
    "VI addi_small_state + ucast (V addi_small_state ! unat (op_x addi_small_state)) = 0x305"
    by (simp_all add: addi_small_state_def blank_def decode_defs)
  show ?thesis
    using h add_i_Fx1E [OF h, of 0] by (simp add: v)
qed

text \<open>
  Claim C7 as stated fails: \<open>F01E\<close> with \<open>I = 0xFFF\<close> and \<open>V0 = 1\<close> leaves \<open>I = 0x1000\<close>
  (4096), which exceeds \<open>0xFFF\<close> and is not \<open>(0xFFF + 1) mod 4096 = 0\<close>.
\<close>

theorem add_i_Fx1E_counterexample:
  "sized addi_state \<and> op_u addi_state = 0xF \<and> fetch1 addi_state = 0x1E \<and>
   op_x addi_state = 0 \<and> VI addi_state = 0xFFF \<and> V addi_state ! 0 = 1 \<and>
   ExecuteInst 0 addi_state = Inr addi_after \<and> VI addi_after = 0x1000 \<and>
   unat (VI addi_after) = 4096 \<and>
   (unat (VI addi_state) + unat (V addi_state ! 0)) mod 4096 = 0"
  by (simp add: addi_after_def addi_state_def blank_def sized_def W_def H_def
      decode_defs ExecuteInst_def case_F_def Let_def)

subsection \<open>\<open>2nnn\<close> and \<open>00EE\<close>: CALL and RET\<close>

text \<open>
  Claim C10. From every state of the constructor's sizes whose stack pointer is below 16,
  \<open>2nnn\<close> executes without a fault: it stores the address of the next instruction
  (\<open>PC + 2\<close>) in the stack slot \<open>SP\<close>, increments \<open>SP\<close>, sets \<open>PC\<close> to \<open>nnn\<close> and changes
  nothing else. A \<open>00EE\<close> executed later in any state \<open>s2\<close> with that stack pointer and that
  slot executes without a fault, sets \<open>PC\<close> to the stored address and \<open>SP\<close> to its value
  before the call, and changes nothing else: registers, \<open>I\<close>, the timers, memory and the
  display are those of \<open>s2\<close>.
\<close>

theorem call_return_round_trip:
  assumes "sized s" "unat (PC s) + 1 < 4096" "op_u s = 2" "unat (SP s) < 16"
  shows "\<exists>s1. ExecuteInst rnd s = Inr s1 \<and>
      callstack s1 = (callstack s)[unat (SP s) := PC s + 2] \<and>
      SP s1 = SP s + 1 \<and> PC s1 = op_nnn s \<and>
      V s1 = V s \<and> VI s1 = VI s \<and> delayTimer s1 = delayTimer s \<and>
      soundTimer s1 = soundTimer s \<and> mem s1 = mem s \<and> pixels s1 = pixels s \<and>
      keys s1 = keys s \<and>
      (\<forall>s2 rnd2. sized s2 \<and> unat (PC s2) + 1 < 4096 \<and> opcode s2 = RET \<and> SP s2 = SP s1 \<and>
           callstack s2 ! unat (SP s) = callstack s1 ! unat (SP s) \<longrightarrow>
         (\<exists>s3. ExecuteInst rnd2 s2 = Inr s3 \<and> PC s3 = PC s + 2 \<and> SP s3 = SP s \<and>
            V s3 = V s2 \<and> VI s3 = VI s2 \<and> delayTimer s3 = delayTimer s2 \<and>
            soundTimer s3 = soundTimer s2 \<and> mem s3 = mem s2 \<and> pixels s3 = pixels s2 \<and>
            keys s3 = keys s2 \<and> callstack s3 = callstack s2))"
proof -
  let ?s1 = "s\<lparr>callstack := (callstack s)[unat (SP s) := PC s + 2], SP := SP s + 1,
                 PC := op_nnn s\<rparr>"
  have len: "length (callstack s) = 16" using assms(1) by (simp add: sized_def)
  have call: "ExecuteInst rnd s = Inr ?s1"
    using assms len by (simp add: ExecuteInst_u Let_def case_2nnn_def)
  have ret: "\<exists>s3. ExecuteInst rnd2 s2 = Inr s3 \<and> PC s3 = PC s + 2 \<and> SP s3 = SP s \<and>
            V s3 = V s2 \<and> VI s3 = VI s2 \<and> delayTimer s3 = delayTimer s2 \<and>
            soundTimer s3 = soundTimer s2 \<and> mem s3 = mem s2 \<and> pixels s3 = pixels s2 \<and>
            keys s3 = keys s2 \<and> callstack s3 = callstack s2"
    if h: "sized s2" "unat (PC s2) + 1 < 4096" "opcode s2 = RET" "SP s2 = SP ?s1"
      "callstack s2 ! unat (SP s) = callstack ?s1 ! unat (SP s)" for s2 rnd2
  proof -
    have l2: "length (mem s2) = 4096" "length (callstack s2) = 16"
      using h(1) by (simp_all add: sized_def)
    have sp: "SP s2 - 1 = SP s" using h(4) by simp
    have top: "callstack s2 ! unat (SP s) = PC s + 2"
      using h(5) len assms(4) by simp
    have "ExecuteInst rnd2 s2 = case_RET (s2\<lparr>PC := PC s2 + 2\<rparr>)"
      using h(2,3) l2 by (simp add: ExecuteInst_def Let_def RET_def CLS_def)
    then show ?thesis
      using l2 sp top assms(4) by (simp add: case_RET_def Let_def)
  qed
  show ?thesis
    unfolding call using ret by simp
qed

text \<open>The theorem at \<open>2300\<close> in \<open>0x200\<close> with \<open>00EE\<close> in \<open>0x300\<close>: the call leads to \<open>0x300\<close>
  with \<open>0x202\<close> on the stack, the return that follows leads back to \<open>0x202\<close>.\<close>

theorem call_return_round_trip_witness:
  "sized call_state \<and> unat (PC call_state) + 1 < 4096 \<and> op_u call_state = 2 \<and>
   unat (SP call_state) < 16 \<and>
   (\<exists>s1 s3. ExecuteInst 0 call_state = Inr s1 \<and> PC s1 = 0x300 \<and> SP s1 = 1 \<and>
      callstack s1 ! 0 = 0x202 \<and> opcode s1 = RET \<and>
      ExecuteInst 0 s1 = Inr s3 \<and> PC s3 = 0x202 \<and> SP s3 = 0 \<and>
      V s3 = V call_state \<and> VI s3 = VI call_state \<and> mem s3 = mem call_state \<and>
      pixels s3 = pixels call_state \<and> delayTimer s3 = delayTimer call_state \<and>
      soundTimer s3 = soundTimer call_state)"
proof -
  have h: "sized call_state" "unat (PC call_state) + 1 < 4096" "op_u call_state = 2"
    "unat (SP call_state) < 16"
    by (simp_all add: call_state_def blank_def sized_def W_def H_def decode_defs)
  from call_return_round_trip [OF h, of 0]
  obtain s1 where s1: "ExecuteInst 0 call_state = Inr s1"
      "callstack s1 = (callstack call_state)[unat (SP call_state) := PC call_state + 2]"
      "SP s1 = SP call_state + 1" "PC s1 = op_nnn call_state"
      "V s1 = V call_state" "VI s1 = VI call_state" "delayTimer s1 = delayTimer call_state"
      "soundTimer s1 = soundTimer call_state" "mem s1 = mem call_state"
      "pixels s1 = pixels call_state" "keys s1 = keys call_state"
    and later: "\<And>s2 rnd2. sized s2 \<and> unat (PC s2) + 1 < 4096 \<and> opcode s2 = RET \<and>
           SP s2 = SP s1 \<and>
           callstack s2 ! unat (SP call_state) = callstack s1 ! unat (SP call_state) \<Longrightarrow>
         (\<exists>s3. ExecuteInst rnd2 s2 = Inr s3 \<and> PC s3 = PC call_state + 2 \<and>
            SP s3 = SP call_state \<and>
            V s3 = V s2 \<and> VI s3 = VI s2 \<and> delayTimer s3 = delayTimer s2 \<and>
            soundTimer s3 = soundTimer s2 \<and> mem s3 = mem s2 \<and> pixels s3 = pixels s2 \<and>
            keys s3 = keys s2 \<and> callstack s3 = callstack s2)"
    by blast
  have c: "PC call_state = 0x200" "SP call_state = 0" "op_nnn call_state = 0x300"
    by (simp_all add: call_state_def blank_def decode_defs)
  have pc1: "PC s1 = 0x300" using s1(4) c by simp
  have sz1: "sized s1"
    using h(1) s1 by (simp add: sized_def)
  have op1: "opcode s1 = RET" "unat (PC s1) + 1 < 4096"
    by (simp_all add: opcode_def fetch0_def fetch1_def pc1 s1(9) call_state_def blank_def
        RET_def)
  from later [of s1 0] sz1 op1
  obtain s3 where s3: "ExecuteInst 0 s1 = Inr s3" "PC s3 = PC call_state + 2"
      "SP s3 = SP call_state" "V s3 = V s1" "VI s3 = VI s1" "delayTimer s3 = delayTimer s1"
      "soundTimer s3 = soundTimer s1" "mem s3 = mem s1" "pixels s3 = pixels s1"
    by auto
  have top: "callstack s1 ! 0 = 0x202"
    using s1(2) c by (simp add: call_state_def blank_def)
  show ?thesis
    using h s1 s3 pc1 op1 top c by auto
qed

subsection \<open>\<open>3xkk\<close> and \<open>4xkk\<close>: SE and SNE with an immediate\<close>

lemma sint_kk: "(uint (a :: u8) = sint (k :: u8)) = (a = k \<and> k < 0x80)"
proof
  assume e: "uint a = sint k"
  then have nn: "0 \<le> sint k" by (metis uint_ge_0)
  have lt: "sint k < 128" using sint_less [of k] by simp
  have "uint k = take_bit 8 (sint k)" using uint_sint [of k] by simp
  also have "\<dots> = sint k" using nn lt by (simp add: take_bit_int_eq_self)
  finally have u: "uint k = sint k" .
  then have "a = k" using e by (simp add: word_uint_eq_iff)
  moreover have "k < 0x80" using u lt by (simp add: word_less_def)
  ultimately show "a = k \<and> k < 0x80" by simp
next
  assume "a = k \<and> k < 0x80"
  then have ak: "a = k" and "uint k < 128" by (simp_all add: word_less_def)
  moreover have "- 128 \<le> uint k" using uint_ge_0 [of k] by linarith
  ultimately have "signed_take_bit 7 (uint k) = uint k"
    by (simp add: signed_take_bit_int_eq_self_iff)
  then have "sint k = uint k" using sint_uint [of k] by simp
  then show "uint a = sint k" using ak by simp
qed

text \<open>What the program does for every \<open>3xkk\<close> and \<open>4xkk\<close>: the comparison of the unsigned
  register with the signed immediate succeeds only when the two bytes are equal and the
  immediate is below \<open>0x80\<close>.\<close>

lemma se_3xkk_signed:
  assumes "sized s" "unat (PC s) + 1 < 4096" "op_u s = 3"
  shows "ExecuteInst rnd s =
     Inr (s\<lparr>PC := PC s +
       (if V s ! unat (op_x s) = op_kk s \<and> op_kk s < 0x80 then 4 else 2)\<rparr>)"
  using assms by (simp add: ExecuteInst_u Let_def case_3xkk_def skip_if_def sint_kk)

lemma sne_4xkk_signed:
  assumes "sized s" "unat (PC s) + 1 < 4096" "op_u s = 4"
  shows "ExecuteInst rnd s =
     Inr (s\<lparr>PC := PC s +
       (if V s ! unat (op_x s) = op_kk s \<and> op_kk s < 0x80 then 2 else 4)\<rparr>)"
  using assms by (simp add: ExecuteInst_u Let_def case_4xkk_def skip_if_def sint_kk)

text \<open>
  Claim C1 says that \<open>3xkk\<close> skips the next instruction (\<open>PC\<close> ends 4 bytes past the
  instruction) exactly when \<open>V[x]\<close> equals \<open>kk\<close>, and \<open>4xkk\<close> exactly when they differ, for
  every immediate from \<open>0x00\<close> to \<open>0xFF\<close>. The program does not do so for an immediate
  with the high bit set: with \<open>V0 = 0x80\<close>, \<open>3080\<close> does not skip (\<open>PC\<close> advances by 2)
  although \<open>V0\<close> equals \<open>kk\<close>, and \<open>4080\<close> skips (\<open>PC\<close> advances by 4) although they do not
  differ.
\<close>

theorem skip_immediate_high_bit:
  "sized se_state \<and> op_u se_state = 3 \<and> op_kk se_state = 0x80 \<and>
   V se_state ! unat (op_x se_state) = 0x80 \<and>
   ExecuteInst 0 se_state = Inr (se_state\<lparr>PC := PC se_state + 2\<rparr>) \<and>
   sized sne_state \<and> op_u sne_state = 4 \<and> op_kk sne_state = 0x80 \<and>
   V sne_state ! unat (op_x sne_state) = 0x80 \<and>
   ExecuteInst 0 sne_state = Inr (sne_state\<lparr>PC := PC sne_state + 4\<rparr>)"
  by (simp add: se_state_def sne_state_def blank_def sized_def W_def H_def decode_defs
      ExecuteInst_def Let_def case_3xkk_def case_4xkk_def skip_if_def)

subsection \<open>Stack overflow and underflow\<close>

lemma unat_minus_1_u8: "unat (- 1 :: u8) = 255"
  by (simp add: unsigned_minus_1_eq_mask mask_eq_exp_minus_1)

text \<open>A call with 16 or more entries on the stack stops with the \<open>exit\<close> of case 2 and
  writes nothing.\<close>

lemma call_2nnn_full:
  assumes "sized s" "unat (PC s) + 1 < 4096" "op_u s = 2" "16 \<le> unat (SP s)"
  shows "ExecuteInst rnd s = Inl MaxRecursionDepth"
  using assms by (simp add: ExecuteInst_u Let_def case_2nnn_def sized_def)

text \<open>A return with an empty stack has no such check: \<open>--SP\<close> wraps the 8-bit stack
  pointer to 255 and \<open>callstack[255]\<close> is read, outside the 16 entries.\<close>

lemma ret_00EE_empty:
  assumes "sized s" "unat (PC s) + 1 < 4096" "opcode s = RET" "SP s = 0"
  shows "ExecuteInst rnd s = Inl (OutOfRange v_callstack 255)"
  using assms
  by (simp add: ExecuteInst_def Let_def case_RET_def sized_def RET_def CLS_def
      unat_minus_1_u8)

text \<open>
  Claim C4 says that \<open>2nnn\<close> with 16 return addresses on the stack stops with a fatal
  stack-overflow error, and that \<open>00EE\<close> with an empty stack stops with a fatal
  stack-underflow error instead of wrapping the stack pointer or reading outside the
  stack. The first half holds (\<open>call_2nnn_full\<close>). The second does not: \<open>00EE\<close> at
  \<open>SP = 0\<close> is no \<open>exit\<close> of the program but the read of \<open>callstack[255]\<close>.
\<close>

theorem ret_underflow_unchecked:
  "sized ret_state \<and> opcode ret_state = RET \<and> SP ret_state = 0 \<and>
   ExecuteInst 0 ret_state = Inl (OutOfRange v_callstack 255)"
  by (simp add: ret_state_def blank_def sized_def W_def H_def decode_defs ExecuteInst_def
      Let_def case_RET_def unat_minus_1_u8)

subsection \<open>\<open>Ex9E\<close> and \<open>ExA1\<close>: SKP and SKNP\<close>

text \<open>What the program does for every \<open>Ex9E\<close> and \<open>ExA1\<close>. Only \<open>Ex9E\<close> checks the key
  index.\<close>

lemma skp_Ex9E:
  assumes "sized s" "unat (PC s) + 1 < 4096" "op_u s = 0xE" "fetch1 s = 0x9E"
  shows "ExecuteInst rnd s =
     (if 15 < unat (V s ! unat (op_x s)) then Inl InvalidCode
      else Inr (s\<lparr>PC := PC s +
        (if keys s ! unat (V s ! unat (op_x s)) = DOWN then 4 else 2)\<rparr>))"
  using assms
  by (simp add: ExecuteInst_u Let_def case_E_def skip_if_def word_less_nat_alt)

lemma sknp_ExA1:
  assumes "sized s" "unat (PC s) + 1 < 4096" "op_u s = 0xE" "fetch1 s = 0xA1"
  shows "ExecuteInst rnd s =
     (if 15 < unat (V s ! unat (op_x s))
      then Inl (OutOfRange v_keys (unat (V s ! unat (op_x s))))
      else Inr (s\<lparr>PC := PC s +
        (if keys s ! unat (V s ! unat (op_x s)) = UP then 4 else 2)\<rparr>))"
  using assms
  by (auto simp add: ExecuteInst_u Let_def case_E_def skip_if_def sized_def)

text \<open>
  Claim C8 says that both \<open>Ex9E\<close> and \<open>ExA1\<close> stop with a fatal invalid-key-index error
  when \<open>V[x] > 15\<close>, before any access to the keypad, and that with \<open>V[x] \<le> 15\<close> they skip
  exactly when the key is pressed (\<open>Ex9E\<close>) or not pressed (\<open>ExA1\<close>). The program does so
  for \<open>Ex9E\<close> and, with \<open>V[x] \<le> 15\<close>, for \<open>ExA1\<close>; but \<open>ExA1\<close> with \<open>V[x] > 15\<close> is no
  \<open>exit\<close>: \<open>E0A1\<close> with \<open>V0 = 16\<close> reads \<open>keys[16]\<close>, outside the 16 entries.
\<close>

theorem sknp_key_index_unchecked:
  "sized sknp_state \<and> op_u sknp_state = 0xE \<and> fetch1 sknp_state = 0xA1 \<and>
   V sknp_state ! unat (op_x sknp_state) = 16 \<and>
   ExecuteInst 0 sknp_state = Inl (OutOfRange v_keys 16)"
  by (simp add: sknp_state_def blank_def sized_def W_def H_def decode_defs ExecuteInst_def
      Let_def case_E_def)

subsection \<open>\<open>Dxyn\<close>: DRW\<close>

lemma upt_8: "[0..<8] = [0, 1, 2, 3, 4, 5, 6, 7]"
  by code_simp

lemmas draw_defs = case_Dxyn_def draw_line_def draw_bit_def W_def H_def upt_8

lemma fetch1_opcode: "fetch1 s = ucast (opcode s)"
  unfolding opcode_def
  by (rule bit_word_eqI) (auto simp add: bit_simps dest: bit_imp_le_length)

lemma xor_at_twice: "xor_at c (xor_at c p) = p"
  by (cases "fst c < length p") (simp_all add: xor_at_def xor.assoc list_update_beyond)

lemma xor_at_commute: "xor_at c (xor_at d p) = xor_at d (xor_at c p)"
proof (cases "fst c = fst d")
  case True
  then show ?thesis
    by (cases "fst c < length p")
      (simp_all add: xor_at_def xor.assoc xor.left_commute xor.commute list_update_beyond)
next
  case False
  then show ?thesis
    by (simp add: xor_at_def list_update_swap)
qed

lemma xor_at_fold_commute: "xor_at c (fold xor_at cs p) = fold xor_at cs (xor_at c p)"
  by (induction cs arbitrary: p) (simp_all add: xor_at_commute)

lemma fold_xor_at_twice: "fold xor_at cs (fold xor_at cs p) = p"
proof (induction cs arbitrary: p)
  case Nil
  then show ?case by simp
next
  case (Cons c cs)
  have "fold xor_at (c # cs) (fold xor_at (c # cs) p) =
      fold xor_at cs (xor_at c (fold xor_at cs (xor_at c p)))" by simp
  also have "\<dots> = fold xor_at cs (fold xor_at cs (xor_at c (xor_at c p)))"
    by (simp only: xor_at_fold_commute)
  also have "\<dots> = p" by (simp add: xor_at_twice Cons.IH)
  finally show ?case .
qed

text \<open>When neither \<open>x\<close> nor \<open>y\<close> is 15 the writes to \<open>V[15]\<close> do not move the sprite, and the
  display after the inner loop is the display before it with the bits of the line XORed
  in.\<close>

lemma fold_draw_bit_pixels:
  assumes "unat x \<noteq> 15" "unat y \<noteq> 15"
  shows "pixels (fold (draw_bit x y l r) bs s) =
       fold xor_at (line_ops (V s ! unat x) (V s ! unat y) l r bs) (pixels s) \<and>
     V (fold (draw_bit x y l r) bs s) ! unat x = V s ! unat x \<and>
     V (fold (draw_bit x y l r) bs s) ! unat y = V s ! unat y \<and>
     mem (fold (draw_bit x y l r) bs s) = mem s \<and>
     VI (fold (draw_bit x y l r) bs s) = VI s"
proof (induction bs arbitrary: s)
  case Nil
  then show ?case by (simp add: line_ops_def)
next
  case (Cons b bs)
  let ?t = "draw_bit x y l r b s"
  have t: "pixels ?t = fold xor_at (line_ops (V s ! unat x) (V s ! unat y) l r [b]) (pixels s)"
    "V ?t ! unat x = V s ! unat x" "V ?t ! unat y = V s ! unat y"
    "mem ?t = mem s" "VI ?t = VI s"
    using assms by (simp_all add: draw_bit_def Let_def line_ops_def xor_at_def)
  show ?case
    using Cons.IH [of ?t] by (simp add: t) (simp add: line_ops_def)
qed

lemma draw_rows_pixels:
  assumes "unat x \<noteq> 15" "unat y \<noteq> 15"
  shows "draw_rows x y rows s = Inr s' \<Longrightarrow>
     pixels s' =
       fold xor_at
         (sprite_ops (mem s) (unat (VI s AND 0xFFF)) (V s ! unat x) (V s ! unat y) rows)
         (pixels s)"
proof (induction rows arbitrary: s)
  case Nil
  then show ?case by (simp add: sprite_ops_def)
next
  case (Cons r rows)
  let ?a = "unat (VI s AND 0xFFF) + r"
  let ?t = "draw_line x y (mem s ! ?a) r s"
  from Cons.prems have rest: "draw_rows x y rows ?t = Inr s'"
    by (simp_all add: Let_def split: if_splits)
  note f = fold_draw_bit_pixels [OF assms, of "mem s ! ?a" r "[0..<8]" s, folded draw_line_def]
  have "pixels s' =
      fold xor_at
        (sprite_ops (mem ?t) (unat (VI ?t AND 0xFFF)) (V ?t ! unat x) (V ?t ! unat y) rows)
        (pixels ?t)"
    using Cons.IH [OF rest] .
  then show ?case
    by (simp add: f sprite_ops_def)
qed

lemma fold_draw_bit_mem:
  "mem (fold (draw_bit x y l r) bs s) = mem s \<and> VI (fold (draw_bit x y l r) bs s) = VI s"
  by (induction bs arbitrary: s) (simp_all add: draw_bit_def Let_def)

text \<open>The draw returns exactly when every sprite byte is read inside the memory.\<close>

lemma draw_rows_ok:
  "(\<exists>s'. draw_rows x y rows s = Inr s') \<longleftrightarrow>
   (\<forall>r \<in> set rows. unat (VI s AND 0xFFF) + r < length (mem s))"
proof (induction rows arbitrary: s)
  case Nil
  then show ?case by simp
next
  case (Cons r rows)
  let ?a = "unat (VI s AND 0xFFF) + r"
  let ?t = "draw_line x y (mem s ! ?a) r s"
  have t: "mem ?t = mem s" "VI ?t = VI s"
    by (simp_all add: draw_line_def fold_draw_bit_mem)
  show ?case
    using Cons.IH [of ?t] by (simp add: Let_def t)
qed

lemma sprite_ops_cong:
  assumes "\<forall>r \<in> set rows. m2 ! (a + r) = m ! (a + r)"
  shows "sprite_ops m2 a vx vy rows = sprite_ops m a vx vy rows"
  using assms by (simp add: sprite_ops_def cong: map_cong)

text \<open>Two draws of the same sprite at the same coordinates restore the display, whenever
  neither coordinate register is \<open>VF\<close>: if \<open>Dxyn\<close> with \<open>x\<close>, \<open>y\<close> different from 15 has
  executed from \<open>s\<close>, and the same instruction is executed in a state \<open>s2\<close> that has the
  display the first draw left and the same \<open>V[x]\<close>, \<open>V[y]\<close>, low 12 bits of \<open>I\<close> and sprite
  bytes as \<open>s\<close>, then the second draw executes too and leaves the display of \<open>s\<close>.\<close>

lemma draw_twice_restores:
  assumes s: "sized s" "unat (PC s) + 1 < 4096" "op_u s = 0xD"
      and xy: "op_x s \<noteq> 15" "op_y s \<noteq> 15"
      and first: "ExecuteInst rnd s = Inr s1"
      and s2: "sized s2" "unat (PC s2) + 1 < 4096" "opcode s2 = opcode s"
        "V s2 ! unat (op_x s) = V s ! unat (op_x s)"
        "V s2 ! unat (op_y s) = V s ! unat (op_y s)"
        "VI s2 AND 0xFFF = VI s AND 0xFFF"
        "\<forall>r < unat (op_n s). mem s2 ! (unat (VI s AND 0xFFF) + r) =
           mem s ! (unat (VI s AND 0xFFF) + r)"
        "pixels s2 = pixels s1"
  shows "\<exists>s3. ExecuteInst rnd2 s2 = Inr s3 \<and> pixels s3 = pixels s"
proof -
  let ?x = "op_x s" and ?y = "op_y s" and ?n = "op_n s"
  let ?a = "unat (VI s AND 0xFFF)"
  let ?ops = "sprite_ops (mem s) ?a (V s ! unat ?x) (V s ! unat ?y) [0..<unat ?n]"
  let ?p = "s\<lparr>PC := PC s + 2\<rparr>\<lparr>V := (V s)[15 := 0]\<rparr>"
  let ?p2 = "s2\<lparr>PC := PC s2 + 2\<rparr>\<lparr>V := (V s2)[15 := 0]\<rparr>"
  have ux: "unat ?x \<noteq> 15" "unat ?y \<noteq> 15" using xy by (simp_all add: unat_eq_15)
  have dec: "op_u s2 = 0xD" "op_x s2 = ?x" "op_y s2 = ?y" "op_n s2 = ?n"
    using s(3) s2(3)
    by (simp_all add: op_u_def op_x_def op_y_def op_n_def fetch0_opcode fetch1_opcode)
  have lens: "length (mem s2) = length (mem s)" using s(1) s2(1) by (simp add: sized_def)
  have d1: "draw_rows ?x ?y [0..<unat ?n] ?p = Inr s1"
    using first s by (simp add: ExecuteInst_u Let_def case_Dxyn_def)
  have e2: "ExecuteInst rnd2 s2 = draw_rows ?x ?y [0..<unat ?n] ?p2"
    using s2(1,2) dec by (simp add: ExecuteInst_u Let_def case_Dxyn_def)
  have "\<forall>r \<in> set [0..<unat ?n]. unat (VI ?p AND 0xFFF) + r < length (mem ?p)"
    using d1 draw_rows_ok [of ?x ?y "[0..<unat ?n]" ?p] by blast
  then have "\<forall>r \<in> set [0..<unat ?n]. unat (VI ?p2 AND 0xFFF) + r < length (mem ?p2)"
    using s2(6) lens by simp
  then obtain s3 where d2: "draw_rows ?x ?y [0..<unat ?n] ?p2 = Inr s3"
    using draw_rows_ok [of ?x ?y "[0..<unat ?n]" ?p2] by blast
  have p1: "pixels s1 = fold xor_at ?ops (pixels s)"
    using draw_rows_pixels [OF ux d1] ux by simp
  have "sprite_ops (mem s2) ?a (V s ! unat ?x) (V s ! unat ?y) [0..<unat ?n] = ?ops"
    by (rule sprite_ops_cong) (use s2(7) in simp)
  then have p3: "pixels s3 = fold xor_at ?ops (pixels s1)"
    using draw_rows_pixels [OF ux d2] ux s2(4,5,6,8) by simp
  have "pixels s3 = pixels s"
    unfolding p3 p1 by (rule fold_xor_at_twice)
  then show ?thesis using e2 d2 by simp
qed

text \<open>
  Claim C5 says that after \<open>Dxyn\<close> the flag \<open>VF\<close> is 1 exactly when some sprite bit that is 1
  lands on a pixel that was on, and that a pixel that is on where the sprite bit is 0 does
  not set \<open>VF\<close>. The program sets \<open>VF\<close> for every pixel of the sprite's rectangle that is
  on, whatever the sprite bit: \<open>D011\<close> draws the sprite row \<open>0x00\<close> at column 0, row 0, where
  one pixel is on; the display is unchanged and \<open>VF\<close> is 1.
\<close>

theorem draw_flag_without_sprite_bit:
  "sized draw_state \<and> op_u draw_state = 0xD \<and> op_n draw_state = 1 \<and>
   mem draw_state ! unat (VI draw_state AND 0xFFF) = 0 \<and>
   V draw_state ! unat (op_x draw_state) = 0 \<and> V draw_state ! unat (op_y draw_state) = 0 \<and>
   ExecuteInst 0 draw_state = Inr (draw_state\<lparr>PC := 0x202, V := (V draw_state)[15 := 1]\<rparr>)"
  by (simp add: draw_state_def blank_def sized_def decode_defs ExecuteInst_def Let_def
      draw_defs)

text \<open>
  Claim C9 says that executing the same \<open>Dxyn\<close> twice, with \<open>V[x]\<close>, \<open>V[y]\<close>, \<open>I\<close> and the
  sprite bytes equal at both draws, returns the display to its state before the first
  draw. The program does not do so when \<open>y\<close> is 15: it resets \<open>VF\<close> before the loop and reads
  \<open>V[y]\<close> in every iteration. \<open>D0F1\<close> twice on an empty display with the sprite row \<open>0xFF\<close>:
  the first draw turns on columns 0 to 7 of row 0 and leaves \<open>VF = 0\<close>; the second finds a
  collision at column 0, sets \<open>VF = 1\<close> and draws the other seven bits in row 1, so the
  pixel at column 1 of row 0 stays on.
\<close>

theorem draw_twice_not_restored:
  "sized draw_twice_state \<and> op_u draw_twice_state = 0xD \<and> op_x draw_twice_state = 0 \<and>
   op_y draw_twice_state = 15 \<and> op_n draw_twice_state = 1 \<and>
   (\<exists>s1 s2. ExecuteInst 0 draw_twice_state = Inr s1 \<and>
      opcode s1 = opcode draw_twice_state \<and>
      V s1 ! 0 = V draw_twice_state ! 0 \<and> V s1 ! 15 = V draw_twice_state ! 15 \<and>
      VI s1 = VI draw_twice_state \<and> mem s1 = mem draw_twice_state \<and>
      ExecuteInst 0 s1 = Inr s2 \<and>
      pixels draw_twice_state ! 1 = 0 \<and> pixels s2 ! 1 = 1)"
  by (simp add: draw_twice_state_def blank_def sized_def decode_defs ExecuteInst_def Let_def
      draw_defs)

subsection \<open>The timers\<close>

lemma timers_draw_bit:
  "delayTimer (draw_bit x y l r b s) = delayTimer s \<and>
   soundTimer (draw_bit x y l r b s) = soundTimer s"
  by (simp add: draw_bit_def Let_def)

lemma timers_fold_draw_bit:
  "delayTimer (fold (draw_bit x y l r) bs s) = delayTimer s \<and>
   soundTimer (fold (draw_bit x y l r) bs s) = soundTimer s"
  by (induction bs arbitrary: s) (simp_all add: timers_draw_bit)

lemma timers_draw_rows:
  "draw_rows x y rows s = Inr s' \<Longrightarrow>
   delayTimer s' = delayTimer s \<and> soundTimer s' = soundTimer s"
proof (induction rows arbitrary: s)
  case Nil
  then show ?case by simp
next
  case (Cons r rows)
  then show ?case
    by (auto simp add: Let_def draw_line_def timers_fold_draw_bit split: if_splits)
qed

lemma timers_case_Fx55:
  "case_Fx55 is s = Inr s' \<Longrightarrow>
   delayTimer s' = delayTimer s \<and> soundTimer s' = soundTimer s"
proof (induction "is" arbitrary: s)
  case Nil
  then show ?case by simp
next
  case (Cons i rest)
  from Cons.prems Cons.IH [of "s\<lparr>mem := (mem s)[unat (VI s) + i := V s ! i]\<rparr>"]
  show ?case by (simp add: Let_def split: if_splits)
qed

lemma timers_case_Fx65:
  "case_Fx65 is s = Inr s' \<Longrightarrow>
   delayTimer s' = delayTimer s \<and> soundTimer s' = soundTimer s"
proof (induction "is" arbitrary: s)
  case Nil
  then show ?case by simp
next
  case (Cons i rest)
  from Cons.prems Cons.IH [of "s\<lparr>V := (V s)[i := mem s ! (unat (VI s) + i)]\<rparr>"]
  show ?case by (simp add: Let_def split: if_splits)
qed

lemma timers_case_8:
  "case_8 v x y s = Inr s' \<Longrightarrow>
   delayTimer s' = delayTimer s \<and> soundTimer s' = soundTimer s"
  by (auto simp add: case_8_def case_8xy0_def case_8xy1_def case_8xy2_def case_8xy3_def
      case_8xy4_def case_8xy5_def case_8xy6_def case_8xy7_def case_8xyE_def Let_def
      split: if_splits)

lemma timers_case_E:
  "case_E b1 x s = Inr s' \<Longrightarrow>
   delayTimer s' = delayTimer s \<and> soundTimer s' = soundTimer s"
  by (auto simp add: case_E_def skip_if_def split: if_splits)

lemma timers_case_F:
  "case_F b1 x s = Inr s' \<Longrightarrow>
   delayTimer s' = (if b1 = 0x15 then V s ! unat x else delayTimer s) \<and>
   soundTimer s' = (if b1 = 0x18 then V s ! unat x else soundTimer s)"
  by (auto simp add: case_F_def case_Fx0A_def case_Fx33_def Let_def
      dest: timers_case_Fx55 timers_case_Fx65 split: if_splits option.splits)

text \<open>\<open>ExecuteInst\<close> writes the delay timer only in \<open>Fx15\<close> and the sound timer only in
  \<open>Fx18\<close>.\<close>

lemma timers_ExecuteInst:
  assumes "ExecuteInst rnd s = Inr s'"
  shows "delayTimer s' =
           (if op_u s = 0xF \<and> fetch1 s = 0x15 then V s ! unat (op_x s) else delayTimer s) \<and>
         soundTimer s' =
           (if op_u s = 0xF \<and> fetch1 s = 0x18 then V s ! unat (op_x s) else soundTimer s)"
proof (cases "opcode s = CLS \<or> opcode s = RET")
  case True
  then have "op_u s = 0" using opcode_CLS_u opcode_RET_u by blast
  then show ?thesis
    using assms True
    by (auto simp add: ExecuteInst_def Let_def case_RET_def CLS_def RET_def split: if_splits)
next
  case False
  then show ?thesis
    using assms
    by (auto simp add: ExecuteInst_def Let_def case_1nnn_def case_2nnn_def case_3xkk_def
        case_4xkk_def case_5xy0_def case_6xkk_def case_7xkk_def case_9xy0_def case_Annn_def
        case_Bnnn_def case_Cxkk_def case_Dxyn_def skip_if_def
        dest!: timers_case_8 timers_case_E timers_case_F timers_draw_rows
        split: if_splits)
qed

lemma timers_unat:
  "unat (delayTimer (timers s)) = unat (delayTimer s) - 1 \<and>
   unat (soundTimer (timers s)) = unat (soundTimer s) - 1 \<and>
   timers s = s\<lparr>delayTimer := delayTimer (timers s), soundTimer := soundTimer (timers s)\<rparr>"
  by (auto simp add: timers_def Let_def unat_minus_one word_greater_zero_iff)

text \<open>The loop of \<open>main\<close> is 150 cycles, with the loop counters 0, 2, ..., 298.\<close>

lemma main_for_RunCycles:
  "n \<le> 150 \<Longrightarrow>
   main_for (300 - 2 * int n) rnds s =
     RunCycles rnds (map (\<lambda>k. 2 * k) [150 - int n..149]) s"
proof (induction n arbitrary: s)
  case 0
  then show ?case by (subst main_for.simps) (simp add: clockSpeed_def)
next
  case (Suc n)
  have lt: "300 - 2 * int (Suc n) < clockSpeed" by (simp add: clockSpeed_def)
  have nx: "300 - 2 * int (Suc n) + 2 = 300 - 2 * int n" by simp
  have up: "[150 - int (Suc n)..149] = (150 - int (Suc n)) # [150 - int n..149]"
    using Suc.prems by (subst upto.simps) simp
  have ih: "main_for (300 - 2 * int n) rnds s1 =
      RunCycles rnds (map (\<lambda>k. 2 * k) [150 - int n..149]) s1" for s1
    using Suc.IH Suc.prems by simp
  have ix: "300 - 2 * int (Suc n) = 2 * (150 - int (Suc n))" by simp
  have "main_for (300 - 2 * int (Suc n)) rnds s =
      (case RunCycle (rnds (300 - 2 * int (Suc n))) s of
         Inl e \<Rightarrow> Inl e | Inr s1 \<Rightarrow> main_for (300 - 2 * int n) rnds s1)"
    by (subst main_for.simps) (simp only: lt if_True nx)
  also have "\<dots> =
      (case RunCycle (rnds (2 * (150 - int (Suc n)))) s of
         Inl e \<Rightarrow> Inl e
       | Inr s1 \<Rightarrow> RunCycles rnds (map (\<lambda>k. 2 * k) [150 - int n..149]) s1)"
    by (simp only: ih ix)
  also have "\<dots> = RunCycles rnds (map (\<lambda>k. 2 * k) [150 - int (Suc n)..149]) s"
    by (simp only: up list.map RunCycles.simps)
  finally show ?case .
qed

text \<open>
  Claim C6, as amended. Executing a single instruction (\<open>ExecuteInst\<close>) never decrements a
  timer: it leaves the delay timer unchanged unless the instruction is \<open>Fx15\<close>, which sets
  it to \<open>V[x]\<close>, and the sound timer unchanged unless the instruction is \<open>Fx18\<close>. The timers
  are decremented by \<open>RunCycle\<close>, which executes one instruction and then decrements each
  timer that is not 0 by 1, changing nothing else; and the loop that \<open>main\<close> runs for each
  rendered frame is 150 calls of \<open>RunCycle\<close>. So a timer is decremented once for every
  executed instruction, 150 times in a frame, not once per frame.
\<close>

theorem timers_per_cycle:
  "(ExecuteInst rnd s = Inr s1 \<longrightarrow>
      delayTimer s1 =
        (if op_u s = 0xF \<and> fetch1 s = 0x15 then V s ! unat (op_x s) else delayTimer s) \<and>
      soundTimer s1 =
        (if op_u s = 0xF \<and> fetch1 s = 0x18 then V s ! unat (op_x s) else soundTimer s)) \<and>
   (RunCycle rnd s = Inr s2 \<longrightarrow>
      (\<exists>s1. ExecuteInst rnd s = Inr s1 \<and>
         unat (delayTimer s2) = unat (delayTimer s1) - 1 \<and>
         unat (soundTimer s2) = unat (soundTimer s1) - 1 \<and>
         s2 = s1\<lparr>delayTimer := delayTimer s2, soundTimer := soundTimer s2\<rparr>)) \<and>
   main_for 0 rnds s = RunCycles rnds (map (\<lambda>k. 2 * k) [0..149]) s \<and>
   length (map (\<lambda>k. 2 * k) [0..149 :: int]) = 150"
proof -
  have a: "ExecuteInst rnd s = Inr s1 \<longrightarrow>
      delayTimer s1 =
        (if op_u s = 0xF \<and> fetch1 s = 0x15 then V s ! unat (op_x s) else delayTimer s) \<and>
      soundTimer s1 =
        (if op_u s = 0xF \<and> fetch1 s = 0x18 then V s ! unat (op_x s) else soundTimer s)"
    using timers_ExecuteInst [of rnd s s1] by blast
  have b: "RunCycle rnd s = Inr s2 \<longrightarrow>
      (\<exists>s1. ExecuteInst rnd s = Inr s1 \<and>
         unat (delayTimer s2) = unat (delayTimer s1) - 1 \<and>
         unat (soundTimer s2) = unat (soundTimer s1) - 1 \<and>
         s2 = s1\<lparr>delayTimer := delayTimer s2, soundTimer := soundTimer s2\<rparr>)"
    using timers_unat by (auto simp add: RunCycle_def split: sum.splits)
  have "main_for (300 - 2 * int 150) rnds s =
      RunCycles rnds (map (\<lambda>k. 2 * k) [150 - int 150..149]) s"
    by (rule main_for_RunCycles) simp
  then have c: "main_for 0 rnds s = RunCycles rnds (map (\<lambda>k. 2 * k) [0..149]) s"
    by simp
  from a b c show ?thesis by simp
qed

text \<open>The theorem at the program that jumps to itself, with the delay timer at 200: the
  instruction leaves the timer at 200, the cycle leaves it at 199.\<close>

theorem timers_per_cycle_witness:
  "ExecuteInst 0 loop_state = Inr loop_state \<and> delayTimer loop_state = 200 \<and>
   op_u loop_state = 1 \<and>
   RunCycle 0 loop_state = Inr (loop_state\<lparr>delayTimer := 199\<rparr>) \<and>
   unat (delayTimer (loop_state\<lparr>delayTimer := 199\<rparr>)) = unat (delayTimer loop_state) - 1"
proof -
  have e: "ExecuteInst 0 loop_state = Inr loop_state"
    by (simp add: ExecuteInst_def Let_def case_1nnn_def loop_state_def blank_def decode_defs)
  have r: "RunCycle 0 loop_state = Inr (loop_state\<lparr>delayTimer := 199\<rparr>)"
    by (simp add: RunCycle_def e timers_def Let_def, simp add: loop_state_def blank_def)
  have u: "op_u loop_state = 1" "delayTimer loop_state = 200"
    by (simp_all add: loop_state_def blank_def decode_defs)
  from timers_per_cycle
    [of 0 loop_state loop_state "loop_state\<lparr>delayTimer := 199\<rparr>" no_random] e r u
  show ?thesis by auto
qed

lemma RunCycle_loop_with:
  assumes "0 < d"
  shows "RunCycle r (loop_with d) = Inr (loop_with (d - 1))"
  using assms
  by (simp add: RunCycle_def ExecuteInst_def Let_def case_1nnn_def timers_def loop_with_def
      loop_state_def blank_def decode_defs)

lemma main_for_loop_with:
  "n \<le> 150 \<Longrightarrow> n \<le> unat d \<Longrightarrow>
   main_for (300 - 2 * int n) rnds (loop_with d) = Inr (loop_with (d - of_nat n))"
proof (induction n arbitrary: d)
  case 0
  then show ?case by (subst main_for.simps) (simp add: clockSpeed_def)
next
  case (Suc n)
  have pos: "0 < d"
    using Suc.prems(2) by (simp add: word_greater_zero_iff unat_gt_0 flip: unat_gt_0)
  have lt: "300 - 2 * int (Suc n) < clockSpeed" by (simp add: clockSpeed_def)
  have nx: "300 - 2 * int (Suc n) + 2 = 300 - 2 * int n" by simp
  have "unat (d - 1) = unat d - 1" using pos by (simp add: unat_minus_one word_neq_0_conv)
  then have le: "n \<le> unat (d - 1)" using Suc.prems(2) by simp
  have "main_for (300 - 2 * int (Suc n)) rnds (loop_with d) =
      main_for (300 - 2 * int n) rnds (loop_with (d - 1))"
    by (subst main_for.simps) (simp only: lt if_True RunCycle_loop_with [OF pos] sum.case nx)
  also have "\<dots> = Inr (loop_with (d - 1 - of_nat n))"
    using Suc.IH [OF _ le] Suc.prems(1) by simp
  finally show ?case by (simp add: diff_diff_eq)
qed

text \<open>
  Claim C6 as stated fails: in one frame of the program that jumps to itself the delay
  timer falls from 200 to 50, by 150 and not by 1.
\<close>

theorem frame_timer_counterexample:
  "sized loop_state \<and> delayTimer loop_state = 200 \<and>
   main_for 0 no_random loop_state = Inr (loop_state\<lparr>delayTimer := 50\<rparr>)"
proof -
  have "main_for (300 - 2 * int 150) no_random (loop_with 200) =
      Inr (loop_with (200 - of_nat 150))"
    by (rule main_for_loop_with) simp_all
  then have "main_for 0 no_random (loop_with 200) = Inr (loop_with 50)" by simp
  moreover have "loop_with 200 = loop_state" by (simp add: loop_with_def loop_state_def)
  moreover have "loop_with 50 = loop_state\<lparr>delayTimer := 50\<rparr>" by (simp add: loop_with_def)
  moreover have "sized loop_state" "delayTimer loop_state = 200"
    by (simp_all add: loop_state_def blank_def sized_def W_def H_def)
  ultimately show ?thesis by simp
qed

end
